theory Spec2Isabelle
  imports Main "HOL-Library.Sublist"
begin

section \<open>The leveled logger of \<open>src/logger/logger.go\<close>\<close>

text \<open>
  The package keeps its configuration and its output sink in package-level variables and
  acts on the outside world by writing to a stream, by panicking and by exiting. The
  embedding makes all of that explicit: the variables and both standard streams are one
  record that every function takes and returns, and the way a call ends is a value.
\<close>

subsection \<open>State and outcomes\<close>

text \<open>The two values \<open>output\<close> can hold: \<open>os.Stderr\<close> and \<open>os.Stdout\<close>.\<close>

datatype writer = Stderr | Stdout

text \<open>
  The package variables of lines 15-21 (\<open>loggerLevel\<close> and \<open>loggerOutput\<close> are the values
  behind the two flag pointers, \<open>mu\<close> is held or free, \<open>output_sink\<close> is the variable
  \<open>output\<close>, whose own name is reserved in Isabelle),
  followed by the bytes written so far to each of the two streams. A write appends to its
  stream; \<open>fmt.Fprint\<close>'s own error result is dropped by the source and not modelled.
\<close>

record logger_state =
  loggerLevel :: string
  loggerOutput :: string
  mu_locked :: bool
  output_sink :: writer
  stderr_written :: string
  stdout_written :: string

text \<open>
  How a call ends: it returns, it panics with an error value made by \<open>errors.New\<close> or
  \<open>fmt.Errorf\<close> (the payload is the error's text), it ends the process through \<open>os.Exit\<close>
  with the given code, or it waits forever on \<open>mu.Lock()\<close> because the mutex is held.
\<close>

datatype outcome = Returned | Panicked string | Exited int | Blocked

text \<open>
  What the Go runtime and standard library supply and this package only calls:
  \<open>fmt.Sprintf\<close> on the caller's format and arguments, the rendering of the verb \<open>%q\<close>,
  the current time formatted by \<open>time.Now().In(timezone).Format(...)\<close> (line 92), and
  \<open>runtime.Caller\<close>, which yields a file and a line or reports failure.
\<close>

record 'a go_runtime =
  Sprintf :: "string \<Rightarrow> 'a list \<Rightarrow> string"
  quoted :: "string \<Rightarrow> string"
  now_formatted :: string
  Caller :: "int \<Rightarrow> (string \<times> int) option"

text \<open>The state before \<open>flag.Parse\<close> and \<open>Initialization\<close>: the defaults of lines 16-19.\<close>

definition initial_state :: logger_state where
  "initial_state =
     \<lparr>loggerLevel = ''INFO'', loggerOutput = ''stderr'', mu_locked = False,
      output_sink = Stderr, stderr_written = [], stdout_written = []\<rparr>"

subsection \<open>Constants\<close>

definition programRootPath :: string where
  "programRootPath = ''/webCrawler/''"

definition programRootPathLength :: nat where
  "programRootPathLength = length programRootPath"

definition tab :: char where
  "tab = CHR 0x09"

definition newline :: char where
  "newline = CHR 0x0A"

subsection \<open>Initialization (lines 28-51)\<close>

definition validateLoggerLevel :: "'a go_runtime \<Rightarrow> logger_state \<Rightarrow> outcome \<times> logger_state" where
  "validateLoggerLevel rt s =
     (if loggerLevel s = ''INFO'' \<or> loggerLevel s = ''WARN'' \<or> loggerLevel s = ''ERROR''
         \<or> loggerLevel s = ''FATAL'' \<or> loggerLevel s = ''PANIC''
      then (Returned, s)
      else (Panicked (''FATAL: unsupported `-loggerLevel` value: '' @ quoted rt (loggerLevel s)
                      @ ''; supported values are: INFO, WARN, ERROR, FATAL, PANIC''), s))"

definition setLoggerOutput :: "'a go_runtime \<Rightarrow> logger_state \<Rightarrow> outcome \<times> logger_state" where
  "setLoggerOutput rt s =
     (if loggerOutput s = ''stderr'' then (Returned, s\<lparr>output_sink := Stderr\<rparr>)
      else if loggerOutput s = ''stdout'' then (Returned, s\<lparr>output_sink := Stdout\<rparr>)
      else (Panicked (''FATAL: unsupported `loggerOutput` value: '' @ quoted rt (loggerOutput s)
                      @ ''; supported values are: stderr, stdout''), s))"

text \<open>The second call runs only when the first one returned.\<close>

definition Initialization :: "'a go_runtime \<Rightarrow> logger_state \<Rightarrow> outcome \<times> logger_state" where
  "Initialization rt s =
     (case validateLoggerLevel rt s of
        (Returned, s1) \<Rightarrow> setLoggerOutput rt s1
      | (oc, s1) \<Rightarrow> (oc, s1))"

subsection \<open>Filtering (lines 125-153)\<close>

definition shouldSkipLog :: "logger_state \<Rightarrow> string \<Rightarrow> bool" where
  "shouldSkipLog s level =
     (if loggerLevel s = ''WARN'' then
        (if level = ''WARN'' \<or> level = ''ERROR'' \<or> level = ''FATAL'' \<or> level = ''PANIC''
         then False else True)
      else if loggerLevel s = ''ERROR'' then
        (if level = ''ERROR'' \<or> level = ''FATAL'' \<or> level = ''PANIC'' then False else True)
      else if loggerLevel s = ''FATAL'' then
        (if level = ''FATAL'' \<or> level = ''PANIC'' then False else True)
      else if loggerLevel s = ''PANIC'' then level \<noteq> ''PANIC''
      else False)"

subsection \<open>Rendering and writing one line (lines 86-123)\<close>

definition formatLogMessage :: "'a go_runtime \<Rightarrow> string \<Rightarrow> 'a list \<Rightarrow> string" where
  "formatLogMessage rt format args = Sprintf rt format args"

text \<open>
  \<open>strings.Index\<close>: the byte index of the first place where \<open>substr\<close> starts in the
  string, and \<open>-1\<close> when there is none.
\<close>

fun Index :: "string \<Rightarrow> string \<Rightarrow> int" where
  "Index [] substr = (if substr = [] then 0 else - 1)"
| "Index (c # cs) substr =
     (if prefix substr (c # cs) then 0
      else (let r = Index cs substr in if r < 0 then - 1 else r + 1))"

text \<open>The verb \<open>%d\<close> on an \<open>int\<close>: decimal digits, with a minus sign below zero.\<close>

definition digit_char :: "nat \<Rightarrow> char" where
  "digit_char d = char_of (48 + d)"

function decimal_nat :: "nat \<Rightarrow> string" where
  "decimal_nat n = (if n < 10 then [digit_char n] else decimal_nat (n div 10) @ [digit_char (n mod 10)])"
  by pat_completeness auto
termination
  by (relation "measure (\<lambda>n. n)") auto

definition decimal_int :: "int \<Rightarrow> string" where
  "decimal_int i = (if i < 0 then CHR ''-'' # decimal_nat (nat (- i)) else decimal_nat (nat i))"

text \<open>Lines 94-98: the caller's file and line, or the placeholder.\<close>

definition callerFileLine :: "'a go_runtime \<Rightarrow> int \<Rightarrow> string \<times> int" where
  "callerFileLine rt skipframes =
     (case Caller rt skipframes of
        None \<Rightarrow> (''???'', 0)
      | Some (file, line) \<Rightarrow> (file, line))"

text \<open>Lines 100-103: the slice \<open>file[n+programRootPathLength:]\<close> when the marker is found.\<close>

definition stripProgramRoot :: "string \<Rightarrow> string" where
  "stripProgramRoot file =
     (let n = Index file programRootPath
      in if n \<ge> 0 then drop (nat n + programRootPathLength) file else file)"

text \<open>Line 104: \<open>fmt.Sprintf("%s:%d", file, line)\<close> on the stripped path.\<close>

definition location :: "string \<Rightarrow> int \<Rightarrow> string" where
  "location file line = stripProgramRoot file @ '':'' @ decimal_int line"

text \<open>The loop of lines 108-110, which drops the last byte while it is a newline.\<close>

function trimNewlines :: "string \<Rightarrow> string" where
  "trimNewlines msg =
     (if length msg > 0 \<and> msg ! (length msg - 1) = newline
      then trimNewlines (take (length msg - 1) msg)
      else msg)"
  by pat_completeness auto
termination
  by (relation "measure length") auto

text \<open>Line 111: \<open>fmt.Sprintf("%s\t%s\t%s\t%s\n", timestamp, level, location, msg)\<close>.\<close>

definition renderLine :: "string \<Rightarrow> string \<Rightarrow> string \<Rightarrow> string \<Rightarrow> string" where
  "renderLine timestamp level loc msg =
     timestamp @ [tab] @ level @ [tab] @ loc @ [tab] @ msg @ [newline]"

text \<open>\<open>fmt.Fprint(output, logMsg)\<close>: the bytes go to the end of the stream \<open>output\<close> names.\<close>

definition Fprint :: "writer \<Rightarrow> string \<Rightarrow> logger_state \<Rightarrow> logger_state" where
  "Fprint w text s =
     (case w of
        Stderr \<Rightarrow> s\<lparr>stderr_written := stderr_written s @ text\<rparr>
      | Stdout \<Rightarrow> s\<lparr>stdout_written := stdout_written s @ text\<rparr>)"

text \<open>
  The whole of \<open>logMessage\<close>. Everything before \<open>mu.Lock()\<close> is pure; \<open>mu.Lock()\<close> on a
  held mutex never comes back; otherwise the line is written between lock and unlock, and
  only then does the final \<open>switch\<close> panic, exit or fall through to the return.
\<close>

definition logMessage ::
  "'a go_runtime \<Rightarrow> string \<Rightarrow> string \<Rightarrow> int \<Rightarrow> logger_state \<Rightarrow> outcome \<times> logger_state" where
  "logMessage rt level msg skipframes s =
     (let timestamp = now_formatted rt;
          (file, line) = callerFileLine rt skipframes;
          loc = location file line;
          msg' = trimNewlines msg;
          logMsg = renderLine timestamp level loc msg'
      in if mu_locked s then (Blocked, s)
         else
           (let s1 = s\<lparr>mu_locked := True\<rparr>;
                s2 = Fprint (output_sink s1) logMsg s1;
                s3 = s2\<lparr>mu_locked := False\<rparr>
            in if level = ''PANIC'' then (Panicked msg', s3)
               else if level = ''FATAL'' then (Exited (- 1), s3)
               else (Returned, s3)))"

definition logLevel ::
  "'a go_runtime \<Rightarrow> string \<Rightarrow> string \<Rightarrow> 'a list \<Rightarrow> logger_state \<Rightarrow> outcome \<times> logger_state" where
  "logLevel rt level format args s =
     (if shouldSkipLog s level then (Returned, s)
      else logMessage rt level (formatLogMessage rt format args) 3 s)"

definition Infof :: "'a go_runtime \<Rightarrow> string \<Rightarrow> 'a list \<Rightarrow> logger_state \<Rightarrow> outcome \<times> logger_state" where
  "Infof rt format args s = logLevel rt ''INFO'' format args s"

definition Warnf :: "'a go_runtime \<Rightarrow> string \<Rightarrow> 'a list \<Rightarrow> logger_state \<Rightarrow> outcome \<times> logger_state" where
  "Warnf rt format args s = logLevel rt ''WARN'' format args s"

definition Errorf :: "'a go_runtime \<Rightarrow> string \<Rightarrow> 'a list \<Rightarrow> logger_state \<Rightarrow> outcome \<times> logger_state" where
  "Errorf rt format args s = logLevel rt ''ERROR'' format args s"

definition Fatalf :: "'a go_runtime \<Rightarrow> string \<Rightarrow> 'a list \<Rightarrow> logger_state \<Rightarrow> outcome \<times> logger_state" where
  "Fatalf rt format args s = logLevel rt ''FATAL'' format args s"

definition Panicf :: "'a go_runtime \<Rightarrow> string \<Rightarrow> 'a list \<Rightarrow> logger_state \<Rightarrow> outcome \<times> logger_state" where
  "Panicf rt format args s = logLevel rt ''PANIC'' format args s"

text \<open>What has been written so far to the stream a writer names.\<close>

definition written :: "writer \<Rightarrow> logger_state \<Rightarrow> string" where
  "written w s = (case w of Stderr \<Rightarrow> stderr_written s | Stdout \<Rightarrow> stdout_written s)"

subsection \<open>The severity order of the specification\<close>

text \<open>
  The specification's data model: five severities, ordered as listed. The source has no
  such type, only the five level strings; \<open>severity_name\<close> gives the string of each and
  \<open>severity_rank\<close> its place in the order INFO < WARN < ERROR < FATAL < PANIC.
\<close>

datatype severity = INFO | WARN | ERROR | FATAL | PANIC

fun severity_name :: "severity \<Rightarrow> string" where
  "severity_name INFO = ''INFO''"
| "severity_name WARN = ''WARN''"
| "severity_name ERROR = ''ERROR''"
| "severity_name FATAL = ''FATAL''"
| "severity_name PANIC = ''PANIC''"

fun severity_rank :: "severity \<Rightarrow> nat" where
  "severity_rank INFO = 0"
| "severity_rank WARN = 1"
| "severity_rank ERROR = 2"
| "severity_rank FATAL = 3"
| "severity_rank PANIC = 4"

subsection \<open>A concrete runtime for the examples\<close>

text \<open>
  The examples below need one concrete runtime. Its \<open>Sprintf\<close> is a table of the values
  \<open>fmt.Sprintf\<close> has at the calls the examples make (a format without verbs and without
  arguments comes back as it is), its \<open>quoted\<close> wraps the value in double quotes as \<open>%q\<close>
  does for a string of plain letters, the clock reads a fixed instant, and
  \<open>runtime.Caller(3)\<close> finds a file under the program root at line 42.
\<close>

datatype go_value = IntArg int | StringArg string

definition example_runtime :: "go_value go_runtime" where
  "example_runtime =
     \<lparr>Sprintf = (\<lambda>format args.
          if format = ''disk full'' \<and> args = [] then ''disk full''
          else if format = ''x=%d'' \<and> args = [IntArg 5] then ''x=5''
          else if format = ''boom: %s'' \<and> args = [StringArg ''io''] then ''boom: io''
          else if format = ''x=%d'' @ [newline] \<and> args = [IntArg 5] then ''x=5'' @ [newline]
          else if format = ''invariant broken'' @ [newline, newline] \<and> args = []
            then ''invariant broken'' @ [newline, newline]
          else if format = [CHR ''a'', tab, CHR ''b''] \<and> args = [] then [CHR ''a'', tab, CHR ''b'']
          else []),
      quoted = (\<lambda>v. [CHR 0x22] @ v @ [CHR 0x22]),
      now_formatted = ''2024-01-02T15:04:05.123Z'',
      Caller = (\<lambda>skip. if skip = 3 then Some (''/x/y/webCrawler/pkg/file.go'', 42) else None)\<rparr>"

subsection \<open>Reading a line back\<close>

text \<open>
  Not part of the source: how a reader of the log takes a line apart, as \<open>strings.Split\<close>
  does with a one-byte separator. The pieces between the separators, in order; \<open>acc\<close>
  holds the piece being read, last byte first.
\<close>

fun split_acc :: "char \<Rightarrow> string \<Rightarrow> string \<Rightarrow> string list" where
  "split_acc sep acc [] = [rev acc]"
| "split_acc sep acc (c # cs) =
     (if c = sep then rev acc # split_acc sep [] cs else split_acc sep (c # acc) cs)"

definition split_on :: "char \<Rightarrow> string \<Rightarrow> string list" where
  "split_on sep line = split_acc sep [] line"

section \<open>Properties\<close>

subsection \<open>Trimming\<close>

declare trimNewlines.simps [simp del]

lemma trimNewlines_Nil: "trimNewlines [] = []"
  by (simp add: trimNewlines.simps)

lemma trimNewlines_snoc_newline: "trimNewlines (m @ [newline]) = trimNewlines m"
  by (subst trimNewlines.simps) simp

lemma trimNewlines_snoc_other: "c \<noteq> newline \<Longrightarrow> trimNewlines (m @ [c]) = m @ [c]"
  by (subst trimNewlines.simps) simp

lemma trimNewlines_replicate: "trimNewlines (m @ replicate k newline) = trimNewlines m"
proof (induction k)
  case 0
  show ?case by simp
next
  case (Suc k)
  have "m @ replicate (Suc k) newline = (m @ replicate k newline) @ [newline]"
    by (simp add: replicate_append_same)
  then show ?case
    using Suc.IH by (simp only: trimNewlines_snoc_newline)
qed

lemma trimNewlines_decompose:
  "\<exists>k. m = trimNewlines m @ replicate k newline \<and> (trimNewlines m = [] \<or> last (trimNewlines m) \<noteq> newline)"
proof (induction m rule: rev_induct)
  case Nil
  show ?case by (simp add: trimNewlines_Nil)
next
  case (snoc c m)
  show ?case
  proof (cases "c = newline")
    case True
    from snoc obtain k where k: "m = trimNewlines m @ replicate k newline"
      and l: "trimNewlines m = [] \<or> last (trimNewlines m) \<noteq> newline" by blast
    have "m @ [c] = (trimNewlines m @ replicate k newline) @ [newline]"
      using k True by simp
    also have "\<dots> = trimNewlines m @ replicate (Suc k) newline"
      by (simp add: replicate_append_same)
    finally have e: "m @ [c] = trimNewlines m @ replicate (Suc k) newline" .
    have tn: "trimNewlines (m @ [c]) = trimNewlines m"
      unfolding True by (rule trimNewlines_snoc_newline)
    show ?thesis
      unfolding tn using e l by blast
  next
    case False
    then have "trimNewlines (m @ [c]) = m @ [c]" by (rule trimNewlines_snoc_other)
    then show ?thesis using False by (intro exI [of _ 0]) simp
  qed
qed

lemma trimNewlines_fixed: "m = [] \<or> last m \<noteq> newline \<Longrightarrow> trimNewlines m = m"
  by (cases m rule: rev_cases) (auto simp: trimNewlines_Nil trimNewlines_snoc_other)

lemma trimNewlines_end: "trimNewlines m = [] \<or> last (trimNewlines m) \<noteq> newline"
  using trimNewlines_decompose [of m] by blast

lemma trimNewlines_idem: "trimNewlines (trimNewlines m) = trimNewlines m"
  by (rule trimNewlines_fixed) (rule trimNewlines_end)

subsection \<open>Searching for the root marker\<close>

lemma Index_self_prefix: "Index (sub @ suf) sub = 0"
proof (cases "sub @ suf")
  case Nil
  then show ?thesis by simp
next
  case (Cons c cs)
  have "prefix sub (sub @ suf)" by simp
  then have "prefix sub (c # cs)" by (simp only: Cons)
  then have "Index (c # cs) sub = 0" by simp
  then show ?thesis by (simp only: Cons)
qed

lemma Index_first:
  "(\<forall>pre' suf'. pre @ sub @ suf = pre' @ sub @ suf' \<longrightarrow> length pre \<le> length pre')
   \<Longrightarrow> Index (pre @ sub @ suf) sub = int (length pre)"
proof (induction pre)
  case Nil
  show ?case using Index_self_prefix [of sub suf] by simp
next
  case (Cons a pre)
  have np: "\<not> prefix sub (a # pre @ sub @ suf)"
  proof
    assume "prefix sub (a # pre @ sub @ suf)"
    then obtain t where "a # pre @ sub @ suf = sub @ t" by (auto simp: prefix_def)
    then have "(a # pre) @ sub @ suf = [] @ sub @ t" by simp
    with Cons.prems have "length (a # pre) \<le> length ([]::string)" by blast
    then show False by simp
  qed
  have "\<forall>pre' suf'. pre @ sub @ suf = pre' @ sub @ suf' \<longrightarrow> length pre \<le> length pre'"
  proof (intro allI impI)
    fix pre' suf' assume "pre @ sub @ suf = pre' @ sub @ suf'"
    then have "(a # pre) @ sub @ suf = (a # pre') @ sub @ suf'" by simp
    with Cons.prems have "length (a # pre) \<le> length (a # pre')" by blast
    then show "length pre \<le> length pre'" by simp
  qed
  then have "Index (pre @ sub @ suf) sub = int (length pre)" by (rule Cons.IH)
  then show ?case using np by simp
qed

lemma Index_absent: "\<not> sublist sub s \<Longrightarrow> Index s sub = - 1"
proof (induction s)
  case Nil
  then show ?case by auto
next
  case (Cons c cs)
  then have "\<not> prefix sub (c # cs)" and "\<not> sublist sub cs"
    by (auto simp: sublist_Cons_right)
  then show ?case using Cons.IH by simp
qed

lemma Index_present: "sublist sub s \<Longrightarrow> 0 \<le> Index s sub"
proof (induction s)
  case Nil
  then show ?case by auto
next
  case (Cons c cs)
  then show ?case by (auto simp: sublist_Cons_right Let_def)
qed

subsection \<open>One call of \<open>logMessage\<close> with the mutex free\<close>

lemma unlock_after_write:
  "\<not> mu_locked s \<Longrightarrow> (Fprint w text (s\<lparr>mu_locked := True\<rparr>))\<lparr>mu_locked := False\<rparr> = Fprint w text s"
  by (cases w) (simp_all add: Fprint_def)

lemma logMessage_free:
  "\<not> mu_locked s \<Longrightarrow>
   logMessage rt level msg skipframes s =
     (if level = ''PANIC'' then Panicked (trimNewlines msg)
      else if level = ''FATAL'' then Exited (- 1) else Returned,
      Fprint (output_sink s)
        (renderLine (now_formatted rt) level
           (location (fst (callerFileLine rt skipframes)) (snd (callerFileLine rt skipframes)))
           (trimNewlines msg)) s)"
  by (simp add: logMessage_def Let_def unlock_after_write split: prod.splits)

lemma written_Fprint: "written w (Fprint w text s) = written w s @ text"
  by (cases w) (simp_all add: written_def Fprint_def)

lemma Fprint_mu: "mu_locked (Fprint w text s) = mu_locked s"
  by (cases w) (simp_all add: Fprint_def)

lemma renderLine_not_Nil: "renderLine ts lv loc msg \<noteq> []"
  by (simp add: renderLine_def)

subsection \<open>Filtering against the severity order\<close>

lemma logLevel_free:
  "\<not> mu_locked s \<Longrightarrow> \<not> shouldSkipLog s level \<Longrightarrow>
   logLevel rt level format args s =
     (if level = ''PANIC'' then Panicked (trimNewlines (Sprintf rt format args))
      else if level = ''FATAL'' then Exited (- 1) else Returned,
      Fprint (output_sink s)
        (renderLine (now_formatted rt) level
           (location (fst (callerFileLine rt 3)) (snd (callerFileLine rt 3)))
           (trimNewlines (Sprintf rt format args))) s)"
  by (simp add: logLevel_def formatLogMessage_def logMessage_free)

lemma logLevel_skipped: "shouldSkipLog s level \<Longrightarrow> logLevel rt level format args s = (Returned, s)"
  by (simp add: logLevel_def)

lemma skip_at_level:
  "loggerLevel s = severity_name M \<Longrightarrow>
   shouldSkipLog s (severity_name L) = (severity_rank L < severity_rank M)"
  by (cases M; cases L) (simp_all add: shouldSkipLog_def)

lemma skip_unrecognized:
  "loggerLevel s \<notin> {''INFO'', ''WARN'', ''ERROR'', ''FATAL'', ''PANIC''} \<Longrightarrow> \<not> shouldSkipLog s level"
  by (simp add: shouldSkipLog_def)

lemma logLevel_output_grows:
  "\<not> mu_locked s \<Longrightarrow> \<not> shouldSkipLog s level \<Longrightarrow>
   written (output_sink s) (snd (logLevel rt level format args s)) \<noteq> written (output_sink s) s"
  by (simp add: logLevel_free written_Fprint renderLine_not_Nil)

lemma skip_FATAL: "shouldSkipLog s ''FATAL'' = (loggerLevel s = ''PANIC'')"
  by (simp add: shouldSkipLog_def)

lemma skip_PANIC: "\<not> shouldSkipLog s ''PANIC''"
  by (simp add: shouldSkipLog_def)

subsection \<open>The example runtime, evaluated\<close>

lemma example_location:
  "location (fst (callerFileLine example_runtime 3)) (snd (callerFileLine example_runtime 3))
     = ''pkg/file.go:42''"
  by code_simp

lemma example_trim: "trimNewlines ''disk full'' = ''disk full''"
  by (rule trimNewlines_fixed) (simp add: newline_def)

subsection \<open>Validating the level\<close>

lemma validate_ok:
  "loggerLevel s \<in> {''INFO'', ''WARN'', ''ERROR'', ''FATAL'', ''PANIC''} \<Longrightarrow>
   validateLoggerLevel rt s = (Returned, s)"
  by (auto simp: validateLoggerLevel_def)

lemma validate_bad:
  "loggerLevel s \<notin> {''INFO'', ''WARN'', ''ERROR'', ''FATAL'', ''PANIC''} \<Longrightarrow>
   validateLoggerLevel rt s =
     (Panicked (''FATAL: unsupported `-loggerLevel` value: '' @ quoted rt (loggerLevel s)
                @ ''; supported values are: INFO, WARN, ERROR, FATAL, PANIC''), s)"
  by (auto simp: validateLoggerLevel_def)

subsection \<open>The location of the caller\<close>

lemma Index_least: "Index (pre @ sub @ suf) sub \<le> int (length pre)"
proof (induction pre)
  case Nil
  show ?case using Index_self_prefix [of sub suf] by simp
next
  case (Cons a pre)
  then show ?case by (simp add: Let_def)
qed

lemma stripProgramRoot_found:
  assumes "\<forall>pre' suf'. pre @ programRootPath @ suf = pre' @ programRootPath @ suf' \<longrightarrow> length pre \<le> length pre'"
  shows "stripProgramRoot (pre @ programRootPath @ suf) = suf"
proof -
  have "Index (pre @ programRootPath @ suf) programRootPath = int (length pre)"
    using assms by (rule Index_first)
  then show ?thesis
    by (simp add: stripProgramRoot_def programRootPathLength_def)
qed

lemma stripProgramRoot_absent:
  assumes "\<not> (\<exists>pre suf. file = pre @ programRootPath @ suf)"
  shows "stripProgramRoot file = file"
proof -
  have "\<not> sublist programRootPath file" using assms by (simp add: sublist_def)
  then have "Index file programRootPath = - 1" by (rule Index_absent)
  then show ?thesis by (simp add: stripProgramRoot_def)
qed

subsection \<open>The end of a rendered line\<close>

lemma renderLine_ends:
  "last (renderLine ts lv loc (trimNewlines msg)) = newline
   \<and> butlast (renderLine ts lv loc (trimNewlines msg)) \<noteq> []
   \<and> last (butlast (renderLine ts lv loc (trimNewlines msg))) \<noteq> newline"
proof -
  have b: "butlast (renderLine ts lv loc (trimNewlines msg))
            = ts @ [tab] @ lv @ [tab] @ loc @ [tab] @ trimNewlines msg"
    by (simp add: renderLine_def butlast_append)
  have "last (ts @ [tab] @ lv @ [tab] @ loc @ [tab] @ trimNewlines msg) \<noteq> newline"
  proof (cases "trimNewlines msg = []")
    case True
    then show ?thesis by (simp add: tab_def newline_def)
  next
    case False
    then have "last (trimNewlines msg) \<noteq> newline" using trimNewlines_end [of msg] by simp
    then show ?thesis using False by simp
  qed
  then show ?thesis unfolding b by (simp add: renderLine_def)
qed

subsection \<open>The mutex is handed back free\<close>

lemma logLevel_keeps_mu_free:
  "\<not> mu_locked s \<Longrightarrow> \<not> mu_locked (snd (logLevel rt level format args s))"
  by (cases "shouldSkipLog s level") (simp_all add: logLevel_skipped logLevel_free Fprint_mu)

lemma Initialization_keeps_mu:
  "mu_locked (snd (Initialization rt s)) = mu_locked s"
  by (simp add: Initialization_def validateLoggerLevel_def setLoggerOutput_def)

lemma logMessage_held: "mu_locked s \<Longrightarrow> logMessage rt level msg skipframes s = (Blocked, s)"
  by (simp add: logMessage_def Let_def split: prod.splits)

subsection \<open>Splitting at a separator\<close>

lemma split_acc_none: "sep \<notin> set xs \<Longrightarrow> split_acc sep acc xs = [rev acc @ xs]"
  by (induction xs arbitrary: acc) auto

lemma split_acc_first:
  "sep \<notin> set xs \<Longrightarrow> split_acc sep acc (xs @ sep # ys) = (rev acc @ xs) # split_acc sep [] ys"
  by (induction xs arbitrary: acc) auto

lemma split_on_four:
  assumes "sep \<notin> set a" and "sep \<notin> set b" and "sep \<notin> set c" and "sep \<notin> set d"
  shows "split_on sep (a @ [sep] @ b @ [sep] @ c @ [sep] @ d) = [a, b, c, d]"
proof -
  have "split_on sep (a @ sep # (b @ sep # (c @ sep # d))) = a # split_acc sep [] (b @ sep # (c @ sep # d))"
    using assms(1) by (simp add: split_on_def split_acc_first)
  also have "split_acc sep [] (b @ sep # (c @ sep # d)) = b # split_acc sep [] (c @ sep # d)"
    using assms(2) by (simp add: split_acc_first)
  also have "split_acc sep [] (c @ sep # d) = c # split_acc sep [] d"
    using assms(3) by (simp add: split_acc_first)
  also have "split_acc sep [] d = [d]"
    using assms(4) by (simp add: split_acc_none)
  finally show ?thesis by simp
qed

lemma renderLine_butlast:
  "butlast (ts @ [tab] @ lv @ [tab] @ loc @ [tab] @ m @ [newline])
     = ts @ [tab] @ lv @ [tab] @ loc @ [tab] @ m"
  by (simp add: butlast_append)

lemma example_trim_x5: "trimNewlines (''x=5'' @ [newline]) = ''x=5''"
proof -
  have "trimNewlines (''x=5'' @ [newline]) = trimNewlines ''x=5''"
    by (rule trimNewlines_snoc_newline)
  also have "\<dots> = ''x=5''"
    by (rule trimNewlines_fixed) (simp add: newline_def)
  finally show ?thesis .
qed

lemma example_trim_invariant:
  "trimNewlines (''invariant broken'' @ [newline, newline]) = ''invariant broken''"
proof -
  have "trimNewlines (''invariant broken'' @ replicate 2 newline) = trimNewlines ''invariant broken''"
    by (rule trimNewlines_replicate)
  moreover have "trimNewlines ''invariant broken'' = ''invariant broken''"
    by (rule trimNewlines_fixed) (simp add: newline_def)
  moreover have "replicate 2 newline = [newline, newline]"
    by (simp add: numeral_2_eq_2)
  ultimately show ?thesis by simp
qed

lemma example_trim_tab: "trimNewlines [CHR ''a'', tab, CHR ''b''] = [CHR ''a'', tab, CHR ''b'']"
  by (rule trimNewlines_fixed) (simp add: newline_def)

section \<open>The claims\<close>

text \<open>
  The mutex is private to the package and every function above hands it back free, so
  between calls it is free; the theorems about calls that write assume that. (A call made
  while it is held is the outcome \<open>Blocked\<close>.)
\<close>

text \<open>
  C1. With the mutex free and the configured minimum being the severity \<open>M\<close>, a call at
  severity \<open>L\<close> is skipped by \<open>shouldSkipLog\<close> exactly when \<open>L\<close> is below \<open>M\<close> in the order
  INFO < WARN < ERROR < FATAL < PANIC, and it adds to the output stream exactly when
  \<open>L\<close> is at least \<open>M\<close>. When the configured minimum is none of the five level strings,
  \<open>shouldSkipLog\<close> is false for every level, and every call adds to the output stream.
\<close>

theorem emitted_iff_at_least_minimum:
  assumes "\<not> mu_locked s"
  shows "(loggerLevel s = severity_name M \<longrightarrow>
            shouldSkipLog s (severity_name L) = (\<not> severity_rank M \<le> severity_rank L)
          \<and> (written (output_sink s) (snd (logLevel rt (severity_name L) format args s))
               \<noteq> written (output_sink s) s) = (severity_rank M \<le> severity_rank L))
       \<and> (loggerLevel s \<notin> {''INFO'', ''WARN'', ''ERROR'', ''FATAL'', ''PANIC''} \<longrightarrow>
            \<not> shouldSkipLog s level
          \<and> written (output_sink s) (snd (logLevel rt level format args s))
               \<noteq> written (output_sink s) s)"
proof (intro conjI impI)
  assume m: "loggerLevel s = severity_name M"
  show sk: "shouldSkipLog s (severity_name L) = (\<not> severity_rank M \<le> severity_rank L)"
    using skip_at_level [OF m, of L] by auto
  show "(written (output_sink s) (snd (logLevel rt (severity_name L) format args s))
           \<noteq> written (output_sink s) s) = (severity_rank M \<le> severity_rank L)"
  proof (cases "shouldSkipLog s (severity_name L)")
    case True
    then show ?thesis using sk by (simp add: logLevel_skipped)
  next
    case False
    then show ?thesis using sk logLevel_output_grows [OF assms False] by simp
  qed
next
  assume u: "loggerLevel s \<notin> {''INFO'', ''WARN'', ''ERROR'', ''FATAL'', ''PANIC''}"
  then show n: "\<not> shouldSkipLog s level" by (rule skip_unrecognized)
  show "written (output_sink s) (snd (logLevel rt level format args s)) \<noteq> written (output_sink s) s"
    using assms n by (rule logLevel_output_grows)
qed

theorem emitted_iff_at_least_minimum_witness:
  "\<not> mu_locked (initial_state\<lparr>loggerLevel := ''WARN''\<rparr>)
   \<and> shouldSkipLog (initial_state\<lparr>loggerLevel := ''WARN''\<rparr>) ''INFO''
   \<and> \<not> shouldSkipLog (initial_state\<lparr>loggerLevel := ''WARN''\<rparr>) ''ERROR''
   \<and> snd (logLevel example_runtime ''INFO'' ''disk full'' [] (initial_state\<lparr>loggerLevel := ''WARN''\<rparr>))
       = initial_state\<lparr>loggerLevel := ''WARN''\<rparr>
   \<and> stderr_written (snd (logLevel example_runtime ''ERROR'' ''disk full'' []
         (initial_state\<lparr>loggerLevel := ''WARN''\<rparr>))) \<noteq> []
   \<and> \<not> shouldSkipLog (initial_state\<lparr>loggerLevel := ''DEBUG''\<rparr>) ''INFO''"
proof -
  let ?w = "initial_state\<lparr>loggerLevel := ''WARN''\<rparr>"
  let ?d = "initial_state\<lparr>loggerLevel := ''DEBUG''\<rparr>"
  have fw: "\<not> mu_locked ?w" by (simp add: initial_state_def)
  have fd: "\<not> mu_locked ?d" by (simp add: initial_state_def)
  have lw: "loggerLevel ?w = severity_name WARN" by simp
  have ld: "loggerLevel ?d \<notin> {''INFO'', ''WARN'', ''ERROR'', ''FATAL'', ''PANIC''}" by simp
  have ow: "output_sink ?w = Stderr" by (simp add: initial_state_def)
  have ww: "written Stderr ?w = []" by (simp add: initial_state_def written_def)
  note a = emitted_iff_at_least_minimum [OF fw, of WARN INFO example_runtime "''disk full''" "[]"]
  note b = emitted_iff_at_least_minimum [OF fw, of WARN ERROR example_runtime "''disk full''" "[]"]
  note c = emitted_iff_at_least_minimum [OF fd, of WARN INFO example_runtime "''disk full''" "[]" "''INFO''"]
  have 1: "shouldSkipLog ?w ''INFO''" using a lw by simp
  have 2: "\<not> shouldSkipLog ?w ''ERROR''" using b lw by simp
  have 3: "snd (logLevel example_runtime ''INFO'' ''disk full'' [] ?w) = ?w"
    using 1 by (simp add: logLevel_def)
  have 4: "stderr_written (snd (logLevel example_runtime ''ERROR'' ''disk full'' [] ?w)) \<noteq> []"
    using b lw ow ww by (simp add: written_def)
  have 5: "\<not> shouldSkipLog ?d ''INFO''" using c ld by blast
  show ?thesis using fw 1 2 3 4 5 by blast
qed

text \<open>
  C2, as stated, at the minimum severity PANIC: \<open>Fatalf\<close> is filtered out like any other call
  below the minimum, so it returns to its caller, writes nothing and ends no process.
\<close>

theorem Fatalf_returns_counterexample:
  "Fatalf example_runtime ''disk full'' [] (initial_state\<lparr>loggerLevel := ''PANIC''\<rparr>)
     = (Returned, initial_state\<lparr>loggerLevel := ''PANIC''\<rparr>)"
  by (simp add: Fatalf_def logLevel_def shouldSkipLog_def)

text \<open>
  C2, amended. With the mutex free and a configured minimum other than PANIC (one of the
  other four levels or an unrecognised value), \<open>Fatalf\<close> writes its line to the output
  sink and then ends the process through \<open>os.Exit(-1)\<close>, a non-zero status, and never
  returns. With the minimum PANIC it returns at once and leaves the state as it was.
\<close>

theorem Fatalf_exits_unless_minimum_PANIC:
  assumes "\<not> mu_locked s"
  shows "(loggerLevel s \<noteq> ''PANIC'' \<longrightarrow>
            Fatalf rt format args s =
              (Exited (- 1),
               Fprint (output_sink s)
                 (renderLine (now_formatted rt) ''FATAL''
                    (location (fst (callerFileLine rt 3)) (snd (callerFileLine rt 3)))
                    (trimNewlines (Sprintf rt format args))) s))
       \<and> (loggerLevel s = ''PANIC'' \<longrightarrow> Fatalf rt format args s = (Returned, s))"
proof (intro conjI impI)
  assume "loggerLevel s \<noteq> ''PANIC''"
  then have "\<not> shouldSkipLog s ''FATAL''" by (simp add: skip_FATAL)
  then show "Fatalf rt format args s =
              (Exited (- 1),
               Fprint (output_sink s)
                 (renderLine (now_formatted rt) ''FATAL''
                    (location (fst (callerFileLine rt 3)) (snd (callerFileLine rt 3)))
                    (trimNewlines (Sprintf rt format args))) s)"
    using assms by (simp add: Fatalf_def logLevel_free)
next
  assume "loggerLevel s = ''PANIC''"
  then have "shouldSkipLog s ''FATAL''" by (simp add: skip_FATAL)
  then show "Fatalf rt format args s = (Returned, s)"
    by (simp add: Fatalf_def logLevel_skipped)
qed

theorem Fatalf_exits_unless_minimum_PANIC_witness:
  "\<not> mu_locked initial_state
   \<and> Fatalf example_runtime ''disk full'' [] initial_state =
       (Exited (- 1),
        initial_state\<lparr>stderr_written :=
          ''2024-01-02T15:04:05.123Z'' @ [tab] @ ''FATAL'' @ [tab] @ ''pkg/file.go:42'' @ [tab]
            @ ''disk full'' @ [newline]\<rparr>)
   \<and> \<not> mu_locked (initial_state\<lparr>loggerLevel := ''PANIC''\<rparr>)
   \<and> Fatalf example_runtime ''disk full'' [] (initial_state\<lparr>loggerLevel := ''PANIC''\<rparr>) =
       (Returned, initial_state\<lparr>loggerLevel := ''PANIC''\<rparr>)"
proof -
  let ?p = "initial_state\<lparr>loggerLevel := ''PANIC''\<rparr>"
  have f0: "\<not> mu_locked initial_state" by (simp add: initial_state_def)
  have fp: "\<not> mu_locked ?p" by (simp add: initial_state_def)
  have l0: "loggerLevel initial_state \<noteq> ''PANIC''" by (simp add: initial_state_def)
  have lp: "loggerLevel ?p = ''PANIC''" by simp
  have sp: "Sprintf example_runtime ''disk full'' [] = ''disk full''"
    by (simp add: example_runtime_def)
  have nw: "now_formatted example_runtime = ''2024-01-02T15:04:05.123Z''"
    by (simp add: example_runtime_def)
  have o0: "output_sink initial_state = Stderr" "stderr_written initial_state = []"
    by (simp_all add: initial_state_def)
  have a: "Fatalf example_runtime ''disk full'' [] initial_state =
       (Exited (- 1),
        initial_state\<lparr>stderr_written :=
          ''2024-01-02T15:04:05.123Z'' @ [tab] @ ''FATAL'' @ [tab] @ ''pkg/file.go:42'' @ [tab]
            @ ''disk full'' @ [newline]\<rparr>)"
    using Fatalf_exits_unless_minimum_PANIC [OF f0, of example_runtime "''disk full''" "[]"] l0
    by (simp add: sp nw o0 example_location example_trim Fprint_def renderLine_def)
  have b: "Fatalf example_runtime ''disk full'' [] ?p = (Returned, ?p)"
    using Fatalf_exits_unless_minimum_PANIC [OF fp, of example_runtime "''disk full''" "[]"] lp
    by blast
  show ?thesis using f0 fp a b by blast
qed

text \<open>
  C3. With the mutex free, whatever the configured minimum (valid or not) and whatever the
  format and arguments, \<open>Panicf\<close> ends in a panic, and at that point the state is the one
  before the call with the rendered line added to the output sink: the line is written
  first. The payload is the formatted message with its trailing newlines trimmed: the
  formatted message is the payload followed by newlines only, and the payload does not
  end in a newline.
\<close>

theorem Panicf_writes_then_panics:
  assumes "\<not> mu_locked s"
  shows "Panicf rt format args s =
           (Panicked (trimNewlines (Sprintf rt format args)),
            Fprint (output_sink s)
              (renderLine (now_formatted rt) ''PANIC''
                 (location (fst (callerFileLine rt 3)) (snd (callerFileLine rt 3)))
                 (trimNewlines (Sprintf rt format args))) s)
       \<and> (\<exists>payload k. fst (Panicf rt format args s) = Panicked payload
             \<and> Sprintf rt format args = payload @ replicate k newline
             \<and> (payload = [] \<or> last payload \<noteq> newline))"
proof -
  have e: "Panicf rt format args s =
           (Panicked (trimNewlines (Sprintf rt format args)),
            Fprint (output_sink s)
              (renderLine (now_formatted rt) ''PANIC''
                 (location (fst (callerFileLine rt 3)) (snd (callerFileLine rt 3)))
                 (trimNewlines (Sprintf rt format args))) s)"
    using assms by (simp add: Panicf_def logLevel_free skip_PANIC)
  obtain k where k: "Sprintf rt format args = trimNewlines (Sprintf rt format args) @ replicate k newline"
    and l: "trimNewlines (Sprintf rt format args) = []
            \<or> last (trimNewlines (Sprintf rt format args)) \<noteq> newline"
    using trimNewlines_decompose [of "Sprintf rt format args"] by blast
  have "fst (Panicf rt format args s) = Panicked (trimNewlines (Sprintf rt format args))"
    by (simp add: e)
  with k l have "\<exists>payload k. fst (Panicf rt format args s) = Panicked payload
             \<and> Sprintf rt format args = payload @ replicate k newline
             \<and> (payload = [] \<or> last payload \<noteq> newline)"
    by blast
  with e show ?thesis by blast
qed

theorem Panicf_writes_then_panics_witness:
  "\<not> mu_locked (initial_state\<lparr>loggerLevel := ''PANIC'', output_sink := Stdout\<rparr>)
   \<and> Panicf example_runtime (''invariant broken'' @ [newline, newline]) []
        (initial_state\<lparr>loggerLevel := ''PANIC'', output_sink := Stdout\<rparr>) =
       (Panicked ''invariant broken'',
        initial_state\<lparr>loggerLevel := ''PANIC'', output_sink := Stdout, stdout_written :=
          ''2024-01-02T15:04:05.123Z'' @ [tab] @ ''PANIC'' @ [tab] @ ''pkg/file.go:42'' @ [tab]
            @ ''invariant broken'' @ [newline]\<rparr>)"
proof -
  let ?p = "initial_state\<lparr>loggerLevel := ''PANIC'', output_sink := Stdout\<rparr>"
  let ?f = "''invariant broken'' @ [newline, newline]"
  have fp: "\<not> mu_locked ?p" by (simp add: initial_state_def)
  have sp: "Sprintf example_runtime ?f [] = ?f"
    by (simp add: example_runtime_def)
  have nw: "now_formatted example_runtime = ''2024-01-02T15:04:05.123Z''"
    by (simp add: example_runtime_def)
  have o: "output_sink ?p = Stdout" "stdout_written ?p = []"
    by (simp_all add: initial_state_def)
  have "Panicf example_runtime ?f [] ?p =
           (Panicked (trimNewlines (Sprintf example_runtime ?f [])),
            Fprint (output_sink ?p)
              (renderLine (now_formatted example_runtime) ''PANIC''
                 (location (fst (callerFileLine example_runtime 3)) (snd (callerFileLine example_runtime 3)))
                 (trimNewlines (Sprintf example_runtime ?f []))) ?p)"
    using Panicf_writes_then_panics [OF fp, of example_runtime ?f "[]"] by blast
  then have "Panicf example_runtime ?f [] ?p =
       (Panicked ''invariant broken'',
        ?p\<lparr>stdout_written :=
          ''2024-01-02T15:04:05.123Z'' @ [tab] @ ''PANIC'' @ [tab] @ ''pkg/file.go:42'' @ [tab]
            @ ''invariant broken'' @ [newline]\<rparr>)"
    by (simp only: sp example_trim_invariant example_location nw o)
       (simp add: Fprint_def renderLine_def o)
  then show ?thesis using fp by simp
qed

text \<open>
  C4. \<open>Initialization\<close> panics, with the state untouched (nothing goes through the logging
  path, nothing is written to the logger's sink, and \<open>output\<close> keeps its value), when the
  level string is not one of the five, whatever the output selector is: the level is
  checked first. With a valid level it panics in the same way when the selector is
  neither \<open>stderr\<close> nor \<open>stdout\<close>, and otherwise returns with \<open>output\<close> set to the
  selected stream.
\<close>

theorem Initialization_outcomes:
  "(loggerLevel s \<notin> {''INFO'', ''WARN'', ''ERROR'', ''FATAL'', ''PANIC''} \<longrightarrow>
      Initialization rt s =
        (Panicked (''FATAL: unsupported `-loggerLevel` value: '' @ quoted rt (loggerLevel s)
                   @ ''; supported values are: INFO, WARN, ERROR, FATAL, PANIC''), s))
   \<and> (loggerLevel s \<in> {''INFO'', ''WARN'', ''ERROR'', ''FATAL'', ''PANIC''} \<longrightarrow>
        (loggerOutput s \<noteq> ''stderr'' \<and> loggerOutput s \<noteq> ''stdout'' \<longrightarrow>
           Initialization rt s =
             (Panicked (''FATAL: unsupported `loggerOutput` value: '' @ quoted rt (loggerOutput s)
                        @ ''; supported values are: stderr, stdout''), s))
      \<and> (loggerOutput s = ''stderr'' \<longrightarrow>
           Initialization rt s = (Returned, s\<lparr>output_sink := Stderr\<rparr>))
      \<and> (loggerOutput s = ''stdout'' \<longrightarrow>
           Initialization rt s = (Returned, s\<lparr>output_sink := Stdout\<rparr>)))"
proof (intro conjI impI)
  assume b: "loggerLevel s \<notin> {''INFO'', ''WARN'', ''ERROR'', ''FATAL'', ''PANIC''}"
  show "Initialization rt s =
        (Panicked (''FATAL: unsupported `-loggerLevel` value: '' @ quoted rt (loggerLevel s)
                   @ ''; supported values are: INFO, WARN, ERROR, FATAL, PANIC''), s)"
    by (simp add: Initialization_def validate_bad [OF b])
next
  assume v: "loggerLevel s \<in> {''INFO'', ''WARN'', ''ERROR'', ''FATAL'', ''PANIC''}"
    and "loggerOutput s \<noteq> ''stderr'' \<and> loggerOutput s \<noteq> ''stdout''"
  then show "Initialization rt s =
             (Panicked (''FATAL: unsupported `loggerOutput` value: '' @ quoted rt (loggerOutput s)
                        @ ''; supported values are: stderr, stdout''), s)"
    by (simp add: Initialization_def validate_ok [OF v] setLoggerOutput_def)
next
  assume v: "loggerLevel s \<in> {''INFO'', ''WARN'', ''ERROR'', ''FATAL'', ''PANIC''}"
    and "loggerOutput s = ''stderr''"
  then show "Initialization rt s = (Returned, s\<lparr>output_sink := Stderr\<rparr>)"
    by (simp add: Initialization_def validate_ok [OF v] setLoggerOutput_def)
next
  assume v: "loggerLevel s \<in> {''INFO'', ''WARN'', ''ERROR'', ''FATAL'', ''PANIC''}"
    and "loggerOutput s = ''stdout''"
  then show "Initialization rt s = (Returned, s\<lparr>output_sink := Stdout\<rparr>)"
    by (simp add: Initialization_def validate_ok [OF v] setLoggerOutput_def)
qed

theorem Initialization_outcomes_witness:
  "fst (Initialization example_runtime
          (initial_state\<lparr>loggerLevel := ''DEBUG'', loggerOutput := ''stdout''\<rparr>))
     = Panicked (''FATAL: unsupported `-loggerLevel` value: '' @ [CHR 0x22] @ ''DEBUG'' @ [CHR 0x22]
                 @ ''; supported values are: INFO, WARN, ERROR, FATAL, PANIC'')
   \<and> output_sink (snd (Initialization example_runtime
          (initial_state\<lparr>loggerLevel := ''DEBUG'', loggerOutput := ''stdout''\<rparr>))) = Stderr
   \<and> fst (Initialization example_runtime (initial_state\<lparr>loggerOutput := ''file''\<rparr>))
     = Panicked (''FATAL: unsupported `loggerOutput` value: '' @ [CHR 0x22] @ ''file'' @ [CHR 0x22]
                 @ ''; supported values are: stderr, stdout'')
   \<and> Initialization example_runtime (initial_state\<lparr>loggerLevel := ''WARN'', loggerOutput := ''stdout''\<rparr>)
     = (Returned, initial_state\<lparr>loggerLevel := ''WARN'', loggerOutput := ''stdout'', output_sink := Stdout\<rparr>)
   \<and> Initialization example_runtime initial_state = (Returned, initial_state)"
proof -
  let ?d = "initial_state\<lparr>loggerLevel := ''DEBUG'', loggerOutput := ''stdout''\<rparr>"
  let ?f = "initial_state\<lparr>loggerOutput := ''file''\<rparr>"
  let ?w = "initial_state\<lparr>loggerLevel := ''WARN'', loggerOutput := ''stdout''\<rparr>"
  have q: "quoted example_runtime = (\<lambda>v. [CHR 0x22] @ v @ [CHR 0x22])"
    by (simp add: example_runtime_def)
  have d: "loggerLevel ?d \<notin> {''INFO'', ''WARN'', ''ERROR'', ''FATAL'', ''PANIC''}" by simp
  have f: "loggerLevel ?f \<in> {''INFO'', ''WARN'', ''ERROR'', ''FATAL'', ''PANIC''}"
    "loggerOutput ?f \<noteq> ''stderr'' \<and> loggerOutput ?f \<noteq> ''stdout''"
    by (simp_all add: initial_state_def)
  have w: "loggerLevel ?w \<in> {''INFO'', ''WARN'', ''ERROR'', ''FATAL'', ''PANIC''}"
    "loggerOutput ?w = ''stdout''" by simp_all
  have i: "loggerLevel initial_state \<in> {''INFO'', ''WARN'', ''ERROR'', ''FATAL'', ''PANIC''}"
    "loggerOutput initial_state = ''stderr''" by (simp_all add: initial_state_def)
  have 1: "Initialization example_runtime ?d =
     (Panicked (''FATAL: unsupported `-loggerLevel` value: '' @ [CHR 0x22] @ ''DEBUG'' @ [CHR 0x22]
                 @ ''; supported values are: INFO, WARN, ERROR, FATAL, PANIC''), ?d)"
  proof -
    from Initialization_outcomes [of ?d example_runtime] d
    have "Initialization example_runtime ?d =
      (Panicked (''FATAL: unsupported `-loggerLevel` value: '' @ quoted example_runtime (loggerLevel ?d)
                 @ ''; supported values are: INFO, WARN, ERROR, FATAL, PANIC''), ?d)"
      by blast
    then show ?thesis by (simp add: q)
  qed
  have 2: "Initialization example_runtime ?f =
     (Panicked (''FATAL: unsupported `loggerOutput` value: '' @ [CHR 0x22] @ ''file'' @ [CHR 0x22]
                 @ ''; supported values are: stderr, stdout''), ?f)"
  proof -
    from Initialization_outcomes [of ?f example_runtime] f
    have "Initialization example_runtime ?f =
      (Panicked (''FATAL: unsupported `loggerOutput` value: '' @ quoted example_runtime (loggerOutput ?f)
                 @ ''; supported values are: stderr, stdout''), ?f)"
      by blast
    then show ?thesis by (simp add: q)
  qed
  have 3: "Initialization example_runtime ?w = (Returned, ?w\<lparr>output_sink := Stdout\<rparr>)"
    using Initialization_outcomes [of ?w example_runtime] w by blast
  have 4: "Initialization example_runtime initial_state = (Returned, initial_state\<lparr>output_sink := Stderr\<rparr>)"
    using Initialization_outcomes [of initial_state example_runtime] i by blast
  have 5: "initial_state\<lparr>output_sink := Stderr\<rparr> = initial_state" by (simp add: initial_state_def)
  have 6: "output_sink ?d = Stderr" by (simp add: initial_state_def)
  show ?thesis using 1 2 3 4 5 6 by simp
qed

text \<open>
  C5. When the caller's file path contains the root marker \<open>/webCrawler/\<close>, the rendered
  location is what follows the first occurrence of the marker (the occurrence with the
  shortest text before it), then a colon and the line number in decimal. When the path
  does not contain the marker, the location is the whole path, a colon and the line.
\<close>

theorem location_relative_to_program_root:
  "(file = pre @ programRootPath @ suf
      \<and> (\<forall>pre' suf'. file = pre' @ programRootPath @ suf' \<longrightarrow> length pre \<le> length pre')
      \<longrightarrow> location file line = suf @ '':'' @ decimal_int line)
   \<and> (\<not> (\<exists>pre suf. file = pre @ programRootPath @ suf)
      \<longrightarrow> location file line = file @ '':'' @ decimal_int line)"
  by (auto simp: location_def stripProgramRoot_found stripProgramRoot_absent)

theorem location_relative_to_program_root_witness:
  "location ''/x/y/webCrawler/pkg/file.go'' 42 = ''pkg/file.go:42''
   \<and> location ''/tmp/main.go'' 7 = ''/tmp/main.go:7''"
proof -
  let ?f = "''/x/y/webCrawler/pkg/file.go''"
  have e: "?f = ''/x/y'' @ programRootPath @ ''pkg/file.go''"
    by (simp add: programRootPath_def)
  have i: "Index ?f programRootPath = 4" by code_simp
  have m: "\<forall>pre' suf'. ?f = pre' @ programRootPath @ suf' \<longrightarrow> length ''/x/y'' \<le> length pre'"
  proof (intro allI impI)
    fix pre' suf' assume "?f = pre' @ programRootPath @ suf'"
    then have "Index ?f programRootPath \<le> int (length pre')"
      using Index_least [of pre' programRootPath suf'] by simp
    then show "length ''/x/y'' \<le> length pre'" using i by simp
  qed
  have n: "\<not> (\<exists>pre suf. ''/tmp/main.go'' = pre @ programRootPath @ suf)"
  proof -
    have "\<not> sublist programRootPath ''/tmp/main.go''" by code_simp
    then show ?thesis by (simp add: sublist_def)
  qed
  have d1: "decimal_int 42 = ''42''" by code_simp
  have d2: "decimal_int 7 = ''7''" by code_simp
  have "location ?f 42 = ''pkg/file.go'' @ '':'' @ decimal_int 42"
    using location_relative_to_program_root [of ?f "''/x/y''" "''pkg/file.go''" 42] e m
    by blast
  then have 1: "location ?f 42 = ''pkg/file.go:42''"
    by (simp add: d1)
  have "location ''/tmp/main.go'' 7 = ''/tmp/main.go'' @ '':'' @ decimal_int 7"
    using location_relative_to_program_root [of "''/tmp/main.go''" "[]" "[]" 7] n
    by blast
  then have 2: "location ''/tmp/main.go'' 7 = ''/tmp/main.go:7''"
    by (simp add: d2)
  show ?thesis using 1 2 by simp
qed

text \<open>
  C6. Trimming a trimmed message changes nothing; two messages that differ only in how
  many newlines they end with (none included) make \<open>logMessage\<close> behave identically,
  the written line included; and a rendered line ends with a newline that is preceded by
  something other than a newline, so it ends with exactly one.
\<close>

theorem trailing_newlines_trimmed_once:
  "trimNewlines (trimNewlines msg) = trimNewlines msg
   \<and> logMessage rt level (msg @ replicate i newline) skipframes s
       = logMessage rt level (msg @ replicate j newline) skipframes s
   \<and> last (renderLine ts level loc (trimNewlines msg)) = newline
   \<and> butlast (renderLine ts level loc (trimNewlines msg)) \<noteq> []
   \<and> last (butlast (renderLine ts level loc (trimNewlines msg))) \<noteq> newline"
proof -
  have "logMessage rt level (msg @ replicate i newline) skipframes s
       = logMessage rt level (msg @ replicate j newline) skipframes s"
    by (simp add: logMessage_def trimNewlines_replicate)
  then show ?thesis
    using trimNewlines_idem [of msg] renderLine_ends [of ts level loc msg] by simp
qed

text \<open>
  C7, as stated, at a message that contains a tab: nothing escapes the field values, so
  the line that \<open>Errorf\<close> writes for the message \<open>a<TAB>b\<close> reads back as five tab-separated
  fields, not four.
\<close>

theorem emitted_line_five_fields_counterexample:
  "split_on tab (butlast (stderr_written
      (snd (Errorf example_runtime [CHR ''a'', tab, CHR ''b''] [] initial_state))))
     = [''2024-01-02T15:04:05.123Z'', ''ERROR'', ''pkg/file.go:42'', ''a'', ''b'']"
proof -
  have f: "\<not> mu_locked initial_state" by (simp add: initial_state_def)
  have k: "\<not> shouldSkipLog initial_state ''ERROR''"
    by (simp add: shouldSkipLog_def initial_state_def)
  have sp: "Sprintf example_runtime [CHR ''a'', tab, CHR ''b''] [] = [CHR ''a'', tab, CHR ''b'']"
    by (simp add: example_runtime_def)
  have nw: "now_formatted example_runtime = ''2024-01-02T15:04:05.123Z''"
    by (simp add: example_runtime_def)
  have o: "output_sink initial_state = Stderr" "stderr_written initial_state = []"
    by (simp_all add: initial_state_def)
  have "stderr_written (snd (Errorf example_runtime [CHR ''a'', tab, CHR ''b''] [] initial_state))
      = ''2024-01-02T15:04:05.123Z'' @ [tab] @ ''ERROR'' @ [tab] @ ''pkg/file.go:42'' @ [tab]
          @ [CHR ''a'', tab, CHR ''b''] @ [newline]"
    by (simp add: Errorf_def logLevel_free [OF f k] sp example_trim_tab example_location nw o
          Fprint_def renderLine_def)
  then show ?thesis
    by (simp add: split_on_def tab_def)
qed

text \<open>
  C7, amended. A call that is not filtered out, made with the mutex free, leaves the state
  as it was except that the output sink has received, in this order, the timestamp, a tab,
  the level name, a tab, the location (root-relative path, colon, line), a tab, the
  message and one newline. The message field is the formatted message with its trailing
  newlines trimmed (the formatted message is the field followed by newlines only, and the
  field does not end in a newline), so what is written ends in exactly one newline. The
  field values are written as they are: when none of the four contains a tab, what stands
  before the final newline splits at tabs into exactly these four fields.
\<close>

theorem emitted_line_four_fields:
  assumes "\<not> mu_locked s" and "\<not> shouldSkipLog s level"
    and "callerFileLine rt 3 = (file, line)"
    and "loc = stripProgramRoot file @ '':'' @ decimal_int line"
    and "m = trimNewlines (formatLogMessage rt format args)"
    and "out = now_formatted rt @ [tab] @ level @ [tab] @ loc @ [tab] @ m @ [newline]"
  shows "snd (logLevel rt level format args s) = Fprint (output_sink s) out s
       \<and> (\<exists>k. formatLogMessage rt format args = m @ replicate k newline)
       \<and> (m = [] \<or> last m \<noteq> newline)
       \<and> last out = newline \<and> butlast out \<noteq> [] \<and> last (butlast out) \<noteq> newline
       \<and> (tab \<notin> set (now_formatted rt) \<and> tab \<notin> set level \<and> tab \<notin> set loc \<and> tab \<notin> set m
            \<longrightarrow> split_on tab (butlast out) = [now_formatted rt, level, loc, m])"
proof -
  have 1: "snd (logLevel rt level format args s) = Fprint (output_sink s) out s"
    using assms by (simp add: logLevel_free renderLine_def location_def formatLogMessage_def)
  have 2: "\<exists>k. formatLogMessage rt format args = m @ replicate k newline"
    and 3: "m = [] \<or> last m \<noteq> newline"
    using trimNewlines_decompose [of "formatLogMessage rt format args"] assms(5) by auto
  have r: "out = renderLine (now_formatted rt) level loc (trimNewlines (formatLogMessage rt format args))"
    using assms(5,6) by (simp add: renderLine_def)
  have 4: "last out = newline \<and> butlast out \<noteq> [] \<and> last (butlast out) \<noteq> newline"
    unfolding r by (rule renderLine_ends)
  have b: "butlast out = now_formatted rt @ [tab] @ level @ [tab] @ loc @ [tab] @ m"
    unfolding assms(6) by (rule renderLine_butlast)
  have 5: "tab \<notin> set (now_formatted rt) \<and> tab \<notin> set level \<and> tab \<notin> set loc \<and> tab \<notin> set m
            \<longrightarrow> split_on tab (butlast out) = [now_formatted rt, level, loc, m]"
  proof
    assume "tab \<notin> set (now_formatted rt) \<and> tab \<notin> set level \<and> tab \<notin> set loc \<and> tab \<notin> set m"
    then have a1: "tab \<notin> set (now_formatted rt)" and a2: "tab \<notin> set level"
      and a3: "tab \<notin> set loc" and a4: "tab \<notin> set m"
      by simp_all
    show "split_on tab (butlast out) = [now_formatted rt, level, loc, m]"
      unfolding b by (rule split_on_four [OF a1 a2 a3 a4])
  qed
  show ?thesis using 1 2 3 4 5 by blast
qed

theorem emitted_line_four_fields_witness:
  "\<not> mu_locked (initial_state\<lparr>loggerLevel := ''WARN'', output_sink := Stdout\<rparr>)
   \<and> \<not> shouldSkipLog (initial_state\<lparr>loggerLevel := ''WARN'', output_sink := Stdout\<rparr>) ''WARN''
   \<and> callerFileLine example_runtime 3 = (''/x/y/webCrawler/pkg/file.go'', 42)
   \<and> snd (Warnf example_runtime (''x=%d'' @ [newline]) [IntArg 5]
            (initial_state\<lparr>loggerLevel := ''WARN'', output_sink := Stdout\<rparr>))
      = initial_state\<lparr>loggerLevel := ''WARN'', output_sink := Stdout, stdout_written :=
          ''2024-01-02T15:04:05.123Z'' @ [tab] @ ''WARN'' @ [tab] @ ''pkg/file.go:42'' @ [tab]
            @ ''x=5'' @ [newline]\<rparr>
   \<and> split_on tab (butlast (''2024-01-02T15:04:05.123Z'' @ [tab] @ ''WARN'' @ [tab]
          @ ''pkg/file.go:42'' @ [tab] @ ''x=5'' @ [newline]))
      = [''2024-01-02T15:04:05.123Z'', ''WARN'', ''pkg/file.go:42'', ''x=5'']"
proof -
  let ?s = "initial_state\<lparr>loggerLevel := ''WARN'', output_sink := Stdout\<rparr>"
  let ?out = "''2024-01-02T15:04:05.123Z'' @ [tab] @ ''WARN'' @ [tab] @ ''pkg/file.go:42'' @ [tab]
            @ ''x=5'' @ [newline]"
  have f: "\<not> mu_locked ?s" by (simp add: initial_state_def)
  have k: "\<not> shouldSkipLog ?s ''WARN''" by (simp add: shouldSkipLog_def)
  have c: "callerFileLine example_runtime 3 = (''/x/y/webCrawler/pkg/file.go'', 42)"
    by (simp add: callerFileLine_def example_runtime_def)
  have sp: "formatLogMessage example_runtime (''x=%d'' @ [newline]) [IntArg 5] = ''x=5'' @ [newline]"
    by (simp add: formatLogMessage_def example_runtime_def)
  have nw: "now_formatted example_runtime = ''2024-01-02T15:04:05.123Z''"
    by (simp add: example_runtime_def)
  have st: "stripProgramRoot ''/x/y/webCrawler/pkg/file.go'' = ''pkg/file.go''" by code_simp
  have d: "decimal_int 42 = ''42''" by code_simp
  have l: "''pkg/file.go:42'' = stripProgramRoot ''/x/y/webCrawler/pkg/file.go'' @ '':'' @ decimal_int 42"
    by (simp add: st d)
  have m: "''x=5'' = trimNewlines (formatLogMessage example_runtime (''x=%d'' @ [newline]) [IntArg 5])"
    by (simp only: sp example_trim_x5)
  have u: "?out = now_formatted example_runtime @ [tab] @ ''WARN'' @ [tab] @ ''pkg/file.go:42'' @ [tab]
            @ ''x=5'' @ [newline]"
    by (simp only: nw)
  have nt: "tab \<notin> set (now_formatted example_runtime) \<and> tab \<notin> set ''WARN''
            \<and> tab \<notin> set ''pkg/file.go:42'' \<and> tab \<notin> set ''x=5''"
    by (simp add: nw tab_def)
  have o: "output_sink ?s = Stdout" "stdout_written ?s = []"
    by (simp_all add: initial_state_def)
  note t = emitted_line_four_fields [OF f k c l m u]
  have "snd (logLevel example_runtime ''WARN'' (''x=%d'' @ [newline]) [IntArg 5] ?s)
          = Fprint (output_sink ?s) ?out ?s"
    using t by blast
  then have 1: "snd (Warnf example_runtime (''x=%d'' @ [newline]) [IntArg 5] ?s)
      = ?s\<lparr>stdout_written := ?out\<rparr>"
    by (simp add: Warnf_def o Fprint_def)
  have "split_on tab (butlast ?out) = [now_formatted example_runtime, ''WARN'', ''pkg/file.go:42'', ''x=5'']"
    using t nt by blast
  then have 2: "split_on tab (butlast ?out) = [''2024-01-02T15:04:05.123Z'', ''WARN'', ''pkg/file.go:42'', ''x=5'']"
    by (simp only: nw)
  show ?thesis using f k c 1 2 by simp
qed

text \<open>
  C8. When the call's severity is below the configured minimum severity, \<open>logLevel\<close> returns
  with the whole state (configuration, sink, both streams, mutex) exactly as it was,
  whatever the runtime, the format and the arguments are.
\<close>

theorem below_minimum_no_effect:
  assumes "loggerLevel s = severity_name M" and "severity_rank L < severity_rank M"
  shows "logLevel rt (severity_name L) format args s = (Returned, s)"
  using assms by (simp add: skip_at_level logLevel_skipped)

theorem below_minimum_no_effect_witness:
  "loggerLevel (initial_state\<lparr>loggerLevel := ''WARN'', output_sink := Stdout\<rparr>) = ''WARN''
   \<and> Infof example_runtime ''disk full'' [] (initial_state\<lparr>loggerLevel := ''WARN'', output_sink := Stdout\<rparr>)
      = (Returned, initial_state\<lparr>loggerLevel := ''WARN'', output_sink := Stdout\<rparr>)"
proof -
  let ?s = "initial_state\<lparr>loggerLevel := ''WARN'', output_sink := Stdout\<rparr>"
  have l: "loggerLevel ?s = severity_name WARN" by simp
  have r: "severity_rank INFO < severity_rank WARN" by simp
  show ?thesis
    using below_minimum_no_effect [OF l r, of example_runtime "''disk full''" "[]"]
    by (simp add: Infof_def)
qed

text \<open>
  C10. Only newlines are trimmed: a message ending in carriage return and newline keeps the
  carriage return; every message is its trimmed form followed by some number of newlines
  and nothing else; and a message whose last byte is not a newline is left as it is.
\<close>

theorem only_newlines_trimmed:
  "trimNewlines (x @ [CHR 0x0D, newline]) = x @ [CHR 0x0D]
   \<and> (\<exists>k. msg = trimNewlines msg @ replicate k newline)
   \<and> (msg \<noteq> [] \<and> last msg \<noteq> newline \<longrightarrow> trimNewlines msg = msg)"
proof -
  have "trimNewlines ((x @ [CHR 0x0D]) @ [newline]) = trimNewlines (x @ [CHR 0x0D])"
    by (rule trimNewlines_snoc_newline)
  moreover have "trimNewlines (x @ [CHR 0x0D]) = x @ [CHR 0x0D]"
    by (rule trimNewlines_snoc_other) (simp add: newline_def)
  ultimately have "trimNewlines (x @ [CHR 0x0D, newline]) = x @ [CHR 0x0D]" by simp
  then show ?thesis
    using trimNewlines_decompose [of msg] trimNewlines_fixed [of msg] by blast
qed

theorem only_newlines_trimmed_witness:
  "trimNewlines [CHR ''x'', CHR 0x0D, newline] = [CHR ''x'', CHR 0x0D]
   \<and> trimNewlines [CHR ''x'', CHR 0x09, CHR '' ''] = [CHR ''x'', CHR 0x09, CHR '' '']"
proof -
  have 1: "trimNewlines [CHR ''x'', CHR 0x0D, newline] = [CHR ''x'', CHR 0x0D]"
    using only_newlines_trimmed [of "[CHR ''x'']" "[]"] by simp
  have h: "[CHR ''x'', CHR 0x09, CHR '' ''] \<noteq> [] \<and> last [CHR ''x'', CHR 0x09, CHR '' ''] \<noteq> newline"
    by (simp add: newline_def)
  have 2: "trimNewlines [CHR ''x'', CHR 0x09, CHR '' ''] = [CHR ''x'', CHR 0x09, CHR '' '']"
    using only_newlines_trimmed [of "[]" "[CHR ''x'', CHR 0x09, CHR '' '']"] h by blast
  show ?thesis using 1 2 by simp
qed

end
